theory Spec2Isabelle
  imports Main "HOL-Library.AList" "HOL-Library.Sublist"
begin

section \<open>The Flow adapter (src/Fbeta.js)\<close>

text \<open>
  \<^verbatim>\<open>Flow\<close> wraps one Socket.IO client socket. The socket library (\<^verbatim>\<open>io\<close>, the
  socket's \<^verbatim>\<open>on\<close>, \<^verbatim>\<open>emit\<close>, \<^verbatim>\<open>disconnect\<close>), the console and \<^verbatim>\<open>setTimeout\<close> are the
  outside world of the class. The model keeps the five fields of the class and records,
  in program order, every call the class makes to the outside world in a trace; a method
  of the class is a function from the object's state to its next state.
\<close>

subsection \<open>Values\<close>

text \<open>
  Payloads, option values and error objects are passed through by the class and never
  inspected. A function object (a callback) is known by its identity only, which is what
  \<^verbatim>\<open>cb !== callback\<close> compares; a socket returned by \<^verbatim>\<open>io\<close> is an object of its own,
  numbered in order of creation. An object literal is the list of its own properties in
  insertion order.
\<close>

datatype jsval = JUndefined | JNull | JBool bool | JNum int | JStr string

type_synonym callback = nat

type_synonym handle = nat

type_synonym jsobject = "(string \<times> jsval) list"

text \<open>
  The four arrow functions that \<^verbatim>\<open>connect\<close> installs on the socket (lines 37-40), a
  caller's function installed by \<^verbatim>\<open>receive\<close>, and the arrow function given to
  \<^verbatim>\<open>setTimeout\<close> (lines 128-130).
\<close>

datatype handler = OnConnect | OnDisconnect | OnError | OnConnectError | UserCallback callback

datatype closure = Reconnect

datatype action =
    Io string jsobject handle
  | SocketOn handle string handler
  | SocketEmit handle string jsval
  | SocketDisconnect handle
  | ConsoleLog string
  | ConsoleError string jsval
  | SetTimeout closure nat
  | Call callback "jsval list"

text \<open>
  What a call can raise: a TypeError of the language, or the value a callback of the
  caller throws.
\<close>

datatype error = TypeError string | Thrown jsval

subsection \<open>The object\<close>

text \<open>
  \<^verbatim>\<open>token\<close> and \<^verbatim>\<open>socket\<close> are \<^verbatim>\<open>null\<close> (\<open>None\<close>) until assigned. \<open>created\<close> counts the
  sockets \<^verbatim>\<open>io\<close> has returned so far, so that each call yields a new object. \<open>thrown\<close>
  says what each function of the caller does when it is called: \<open>thrown s cb = Some x\<close>
  when \<open>cb\<close> throws \<open>x\<close>, \<open>None\<close> when it returns. No method of the class changes it.
\<close>

record flow =
  url :: string
  options :: jsobject
  socket :: "handle option"
  eventListeners :: "(string \<times> callback list) list"
  token :: "string option"
  trace :: "action list"
  created :: nat
  thrown :: "callback \<Rightarrow> jsval option"

text \<open>
  Lines 13-23. A missing argument (\<open>None\<close>) takes the parameter's default. A new object
  starts among callbacks that return; \<open>(constructor u opts)\<lparr>thrown := b\<rparr>\<close> is a new object
  among callbacks that behave as \<open>b\<close> says.
\<close>

definition constructor :: "string option \<Rightarrow> jsobject option \<Rightarrow> flow" where
  "constructor u opts =
     \<lparr> url = (case u of None \<Rightarrow> ''http://localhost:3000'' | Some v \<Rightarrow> v),
       options = (case opts of None \<Rightarrow> [] | Some v \<Rightarrow> v),
       socket = None,
       eventListeners = [(''connect'', []), (''disconnect'', []), (''error'', [])],
       token = None,
       trace = [],
       created = 0,
       thrown = (\<lambda>cb. None) \<rparr>"

definition perform :: "action list \<Rightarrow> flow \<Rightarrow> flow" where
  "perform as s = s\<lparr>trace := trace s @ as\<rparr>"

subsection \<open>Property lookup on the registry\<close>

text \<open>
  \<^verbatim>\<open>this.eventListeners\<close> is an ordinary object created by an object literal, so its
  prototype is \<^verbatim>\<open>Object.prototype\<close>: reading \<^verbatim>\<open>this.eventListeners[event]\<close> yields the own
  property when there is one, else the member of \<^verbatim>\<open>Object.prototype\<close> of that name (a
  function, or for \<^verbatim>\<open>__proto__\<close> the prototype object itself), else \<^verbatim>\<open>undefined\<close>. An
  array is truthy, also when empty, and so is every inherited member; \<^verbatim>\<open>undefined\<close> is
  falsy. An inherited member has no \<^verbatim>\<open>push\<close>, \<^verbatim>\<open>filter\<close> or \<^verbatim>\<open>forEach\<close>: calling one
  raises a TypeError.
\<close>

definition object_prototype_members :: "string list" where
  "object_prototype_members =
     [''constructor'', ''__defineGetter__'', ''__defineSetter__'', ''hasOwnProperty'',
      ''__lookupGetter__'', ''__lookupSetter__'', ''isPrototypeOf'',
      ''propertyIsEnumerable'', ''toString'', ''valueOf'', ''__proto__'',
      ''toLocaleString'']"

datatype property = Array "callback list" | Inherited | Undefined

definition get_property :: "(string \<times> callback list) list \<Rightarrow> string \<Rightarrow> property" where
  "get_property obj name =
     (case map_of obj name of
        Some cbs \<Rightarrow> Array cbs
      | None \<Rightarrow> if name \<in> set object_prototype_members then Inherited else Undefined)"

subsection \<open>Methods\<close>

text \<open>Lines 150-153: \<^verbatim>\<open>url.includes('?')\<close> looks for the one character.\<close>

definition appendTokenToURL :: "string \<Rightarrow> string \<Rightarrow> string" where
  "appendTokenToURL u t =
     (let separator = (if CHR ''?'' \<in> set u then ''&'' else ''?'')
      in u @ separator @ ''token='' @ t)"

text \<open>Lines 37-40: the four handlers \<^verbatim>\<open>connect\<close> installs on the new socket, in order.\<close>

definition install_handlers :: "handle \<Rightarrow> action list" where
  "install_handlers h =
     [SocketOn h ''connect'' OnConnect,
      SocketOn h ''disconnect'' OnDisconnect,
      SocketOn h ''error'' OnError,
      SocketOn h ''connect_error'' OnConnectError]"

text \<open>
  Lines 29-41. \<^verbatim>\<open>if (token)\<close> tests truthiness: \<^verbatim>\<open>null\<close> and the empty string are falsy,
  every other string is truthy.
\<close>

definition connect :: "string option \<Rightarrow> flow \<Rightarrow> flow" where
  "connect tok s =
     (let s1 = (case tok of
                  None \<Rightarrow> s
                | Some t \<Rightarrow>
                    if t \<noteq> [] then s\<lparr>token := Some t, url := appendTokenToURL (url s) t\<rparr>
                    else s);
          h = created s1;
          s2 = perform [Io (url s1) (options s1) h] (s1\<lparr>socket := Some h, created := Suc h\<rparr>)
      in perform (install_handlers h) s2)"

text \<open>
  Lines 158-162: \<^verbatim>\<open>Object.keys\<close> lists the own keys once, then each is assigned the
  empty array.
\<close>

definition clear_entry :: "string \<Rightarrow> flow \<Rightarrow> flow" where
  "clear_entry event s = s\<lparr>eventListeners := AList.update event [] (eventListeners s)\<rparr>"

definition clearEventListeners :: "flow \<Rightarrow> flow" where
  "clearEventListeners s = fold clear_entry (map fst (eventListeners s)) s"

text \<open>Lines 46-51. The field \<^verbatim>\<open>socket\<close> is not assigned.\<close>

definition disconnect :: "flow \<Rightarrow> flow" where
  "disconnect s =
     (case socket s of
        Some h \<Rightarrow> clearEventListeners (perform [SocketDisconnect h] s)
      | None \<Rightarrow> s)"

text \<open>Lines 58-62 and 69-73.\<close>

definition send :: "string \<Rightarrow> jsval \<Rightarrow> flow \<Rightarrow> flow" where
  "send event data s =
     (case socket s of
        Some h \<Rightarrow> perform [SocketEmit h event data] s
      | None \<Rightarrow> s)"

definition receive :: "string \<Rightarrow> callback \<Rightarrow> flow \<Rightarrow> flow" where
  "receive event cb s =
     (case socket s of
        Some h \<Rightarrow> perform [SocketOn h event (UserCallback cb)] s
      | None \<Rightarrow> s)"

text \<open>
  Lines 80-84 and 91-95. A method that raises gives the error together with the state at
  the point of the raise; \<open>None\<close> is a normal return.
\<close>

definition on :: "string \<Rightarrow> callback \<Rightarrow> flow \<Rightarrow> error option \<times> flow" where
  "on event cb s =
     (case get_property (eventListeners s) event of
        Array cbs \<Rightarrow>
          (None, s\<lparr>eventListeners := AList.update event (cbs @ [cb]) (eventListeners s)\<rparr>)
      | Inherited \<Rightarrow>
          (Some (TypeError ''this.eventListeners[event].push is not a function''), s)
      | Undefined \<Rightarrow> (None, s))"

definition off :: "string \<Rightarrow> callback \<Rightarrow> flow \<Rightarrow> error option \<times> flow" where
  "off event cb s =
     (case get_property (eventListeners s) event of
        Array cbs \<Rightarrow>
          (None, s\<lparr>eventListeners :=
                     AList.update event (filter (\<lambda>c. c \<noteq> cb) cbs) (eventListeners s)\<rparr>)
      | Inherited \<Rightarrow>
          (Some (TypeError ''this.eventListeners[event].filter is not a function''), s)
      | Undefined \<Rightarrow> (None, s))"

text \<open>
  Lines 138-142. \<^verbatim>\<open>forEach\<close> calls the elements of the array in order. There is no
  \<^verbatim>\<open>try\<close> around \<^verbatim>\<open>callback(...args)\<close>: a callback that throws ends the loop, the
  callbacks after it are not called, and what it threw leaves \<^verbatim>\<open>triggerEvent\<close>. A
  callback is the caller's code: the model records that it is called and with which
  arguments, takes from \<open>thrown\<close> whether it returns or throws, and takes it not to call
  back into the object.
\<close>

primrec forEach :: "callback list \<Rightarrow> jsval list \<Rightarrow> flow \<Rightarrow> error option \<times> flow" where
  "forEach [] args s = (None, s)"
| "forEach (cb # cbs) args s =
     (case thrown s cb of
        None \<Rightarrow> forEach cbs args (perform [Call cb args] s)
      | Some x \<Rightarrow> (Some (Thrown x), perform [Call cb args] s))"

definition triggerEvent :: "string \<Rightarrow> jsval list \<Rightarrow> flow \<Rightarrow> error option \<times> flow" where
  "triggerEvent event args s =
     (case get_property (eventListeners s) event of
        Array cbs \<Rightarrow> forEach cbs args s
      | Inherited \<Rightarrow>
          (Some (TypeError ''this.eventListeners[event].forEach is not a function''), s)
      | Undefined \<Rightarrow> (None, s))"

text \<open>Lines 100-131.\<close>

definition handleConnect :: "flow \<Rightarrow> error option \<times> flow" where
  "handleConnect s = triggerEvent ''connect'' [] (perform [ConsoleLog ''Connected to server''] s)"

definition handleDisconnect :: "flow \<Rightarrow> error option \<times> flow" where
  "handleDisconnect s =
     triggerEvent ''disconnect'' [] (perform [ConsoleLog ''Disconnected from server''] s)"

definition handleError :: "jsval \<Rightarrow> flow \<Rightarrow> error option \<times> flow" where
  "handleError err s =
     triggerEvent ''error'' [err] (perform [ConsoleError ''Connection error:'' err] s)"

definition handleConnectError :: "jsval \<Rightarrow> flow \<Rightarrow> flow" where
  "handleConnectError err s =
     perform [ConsoleError ''Connection error, attempting to reconnect:'' err,
              SetTimeout Reconnect 3000] s"

text \<open>The body of the timer's arrow function reads \<^verbatim>\<open>this.token\<close> when it runs.\<close>

definition run_closure :: "closure \<Rightarrow> flow \<Rightarrow> flow" where
  "run_closure c s = (case c of Reconnect \<Rightarrow> connect (token s) s)"

text \<open>
  Lines 168-178. The spread copies the own properties of \<^verbatim>\<open>this.options\<close> and then those
  of the argument into a new object: a key already there keeps its place and takes the
  new value, a new key goes last.
\<close>

definition spread :: "jsobject \<Rightarrow> jsobject \<Rightarrow> jsobject" where
  "spread old new = fold (\<lambda>(k, v). AList.update k v) (old @ new) []"

definition setOptions :: "jsobject \<Rightarrow> flow \<Rightarrow> flow" where
  "setOptions opts s =
     (let s1 = s\<lparr>options := spread (options s) opts\<rparr>
      in case socket s1 of
           Some h \<Rightarrow> connect (token s1) (perform [SocketDisconnect h] s1)
         | None \<Rightarrow> s1)"

subsection \<open>Sequences of operations\<close>

text \<open>
  What can happen to an object: a call of a public method, an event delivered by the
  socket library to a handler installed on a socket, or a timer that fires. The state
  after an operation is the state the object is left in, whether or not the call raised.
  What a handler raises goes to the library that called it; a function installed by
  \<^verbatim>\<open>receive\<close> is called by the library itself.
\<close>

datatype operation =
    Connect "string option"
  | Disconnect
  | Send string jsval
  | Receive string callback
  | On string callback
  | Off string callback
  | SetOptions jsobject
  | Deliver handler jsval
  | Fire closure

definition deliver :: "handler \<Rightarrow> jsval \<Rightarrow> flow \<Rightarrow> error option \<times> flow" where
  "deliver h v s =
     (case h of
        OnConnect \<Rightarrow> handleConnect s
      | OnDisconnect \<Rightarrow> handleDisconnect s
      | OnError \<Rightarrow> handleError v s
      | OnConnectError \<Rightarrow> (None, handleConnectError v s)
      | UserCallback cb \<Rightarrow> (map_option Thrown (thrown s cb), perform [Call cb [v]] s))"

definition exec :: "operation \<Rightarrow> flow \<Rightarrow> error option \<times> flow" where
  "exec op s =
     (case op of
        Connect tok \<Rightarrow> (None, connect tok s)
      | Disconnect \<Rightarrow> (None, disconnect s)
      | Send e d \<Rightarrow> (None, send e d s)
      | Receive e cb \<Rightarrow> (None, receive e cb s)
      | On e cb \<Rightarrow> on e cb s
      | Off e cb \<Rightarrow> off e cb s
      | SetOptions opts \<Rightarrow> (None, setOptions opts s)
      | Deliver h v \<Rightarrow> deliver h v s
      | Fire c \<Rightarrow> (None, run_closure c s))"

definition step :: "operation \<Rightarrow> flow \<Rightarrow> flow" where
  "step op s = snd (exec op s)"

definition run :: "operation list \<Rightarrow> flow \<Rightarrow> flow" where
  "run ops s = fold step ops s"

text \<open>Observations used in the statements below.\<close>

definition keys :: "flow \<Rightarrow> string list" where
  "keys s = map fst (eventListeners s)"

definition listeners :: "string \<Rightarrow> flow \<Rightarrow> callback list" where
  "listeners event s = (case map_of (eventListeners s) event of Some cbs \<Rightarrow> cbs | None \<Rightarrow> [])"

definition lifecycle_events :: "string list" where
  "lifecycle_events = [''connect'', ''disconnect'', ''error'']"

section \<open>Auxiliary facts\<close>

subsection \<open>The registry keeps its keys\<close>

lemma perform_fields:
  "url (perform as s) = url s" "options (perform as s) = options s"
  "socket (perform as s) = socket s" "eventListeners (perform as s) = eventListeners s"
  "token (perform as s) = token s" "created (perform as s) = created s"
  "trace (perform as s) = trace s @ as" "thrown (perform as s) = thrown s"
  by (simp_all add: perform_def)

lemma forEach_fields:
  "url (snd (forEach cbs args s)) = url s \<and> options (snd (forEach cbs args s)) = options s \<and>
   socket (snd (forEach cbs args s)) = socket s \<and>
   eventListeners (snd (forEach cbs args s)) = eventListeners s \<and>
   token (snd (forEach cbs args s)) = token s \<and>
   created (snd (forEach cbs args s)) = created s \<and>
   thrown (snd (forEach cbs args s)) = thrown s"
  by (induction cbs arbitrary: s) (simp_all add: perform_fields split: option.splits)

lemma triggerEvent_fields:
  "url (snd (triggerEvent e args s)) = url s" "options (snd (triggerEvent e args s)) = options s"
  "socket (snd (triggerEvent e args s)) = socket s"
  "eventListeners (snd (triggerEvent e args s)) = eventListeners s"
  "token (snd (triggerEvent e args s)) = token s"
  "created (snd (triggerEvent e args s)) = created s"
  "thrown (snd (triggerEvent e args s)) = thrown s"
  by (simp_all add: triggerEvent_def forEach_fields split: property.splits)

lemma update_present_keys:
  "map_of al k = Some v \<Longrightarrow> map fst (AList.update k w al) = map fst al"
  by (simp add: update_keys map_of_eq_None_iff [symmetric])

lemma registry_shape:
  assumes "keys s = lifecycle_events"
  obtains a b c where "eventListeners s = [(''connect'', a), (''disconnect'', b), (''error'', c)]"
  using assms unfolding keys_def lifecycle_events_def
  by (auto simp: map_eq_Cons_conv)

lemma clear_entry_fields:
  "url (clear_entry e s) = url s" "options (clear_entry e s) = options s"
  "socket (clear_entry e s) = socket s" "token (clear_entry e s) = token s"
  "trace (clear_entry e s) = trace s" "created (clear_entry e s) = created s"
  "thrown (clear_entry e s) = thrown s"
  by (simp_all add: clear_entry_def)

lemma fold_clear_entry_fields:
  "url (fold clear_entry ks s) = url s \<and> options (fold clear_entry ks s) = options s \<and>
   socket (fold clear_entry ks s) = socket s \<and> token (fold clear_entry ks s) = token s \<and>
   trace (fold clear_entry ks s) = trace s \<and> created (fold clear_entry ks s) = created s \<and>
   thrown (fold clear_entry ks s) = thrown s"
  by (induction ks arbitrary: s) (simp_all add: clear_entry_fields)

lemma clear_fields:
  "url (clearEventListeners s) = url s" "options (clearEventListeners s) = options s"
  "socket (clearEventListeners s) = socket s" "token (clearEventListeners s) = token s"
  "trace (clearEventListeners s) = trace s" "created (clearEventListeners s) = created s"
  "thrown (clearEventListeners s) = thrown s"
  by (simp_all add: clearEventListeners_def fold_clear_entry_fields)

lemma fold_clear_entry_keys:
  "set ks \<subseteq> set (keys s) \<Longrightarrow> keys (fold clear_entry ks s) = keys s"
proof (induction ks arbitrary: s)
  case Nil
  then show ?case by simp
next
  case (Cons k ks)
  have same: "keys (clear_entry k s) = keys s"
    using Cons.prems by (simp add: keys_def clear_entry_def update_keys)
  with Cons.prems have "set ks \<subseteq> set (keys (clear_entry k s))" by simp
  then have "keys (fold clear_entry ks (clear_entry k s)) = keys (clear_entry k s)"
    by (rule Cons.IH)
  with same show ?case by simp
qed

lemma clear_keys: "keys (clearEventListeners s) = keys s"
  unfolding clearEventListeners_def by (rule fold_clear_entry_keys) (simp add: keys_def)

lemma clear_registry:
  assumes "keys s = lifecycle_events"
  shows "eventListeners (clearEventListeners s) = [(''connect'', []), (''disconnect'', []), (''error'', [])]"
proof -
  obtain a b c where "eventListeners s = [(''connect'', a), (''disconnect'', b), (''error'', c)]"
    using assms by (rule registry_shape)
  then show ?thesis by (simp add: clearEventListeners_def clear_entry_def)
qed

lemma connect_fields:
  "eventListeners (connect tok s) = eventListeners s"
  "options (connect tok s) = options s"
  "socket (connect tok s) = Some (created s)"
  "created (connect tok s) = Suc (created s)"
  "thrown (connect tok s) = thrown s"
  by (simp_all add: connect_def Let_def perform_def split: option.splits)

lemma keys_perform: "keys (perform as s) = keys s"
  by (simp add: keys_def perform_def)

lemma keys_connect: "keys (connect tok s) = keys s"
  by (simp add: keys_def connect_fields)

lemma keys_disconnect: "keys (disconnect s) = keys s"
  by (simp add: disconnect_def clear_keys keys_perform split: option.splits)

lemma keys_send: "keys (send e d s) = keys s"
  by (simp add: send_def keys_perform split: option.splits)

lemma keys_receive: "keys (receive e cb s) = keys s"
  by (simp add: receive_def keys_perform split: option.splits)

lemma keys_on: "keys (snd (on e cb s)) = keys s"
  by (auto simp: on_def get_property_def keys_def update_present_keys split: option.splits)

lemma keys_off: "keys (snd (off e cb s)) = keys s"
  by (auto simp: off_def get_property_def keys_def update_present_keys split: option.splits)

lemma keys_triggerEvent: "keys (snd (triggerEvent e args s)) = keys s"
  by (simp add: keys_def triggerEvent_fields)

lemma keys_setOptions: "keys (setOptions opts s) = keys s"
  by (simp add: setOptions_def Let_def keys_connect keys_perform split: option.splits)
     (simp add: keys_def)

lemma keys_run_closure: "keys (run_closure c s) = keys s"
  by (simp add: run_closure_def keys_connect split: closure.splits)

lemma keys_deliver: "keys (snd (deliver h v s)) = keys s"
  by (simp add: deliver_def handleConnect_def handleDisconnect_def handleError_def
        handleConnectError_def keys_triggerEvent keys_perform split: handler.splits)

lemma keys_step: "keys (step op s) = keys s"
  by (cases op)
     (simp_all add: step_def exec_def keys_connect keys_disconnect keys_send keys_receive
        keys_on keys_off keys_setOptions keys_deliver keys_run_closure)

lemma keys_run: "keys (run ops s) = keys s"
  unfolding run_def by (induction ops arbitrary: s) (simp_all add: keys_step)

lemma keys_constructor: "keys (constructor u opts) = lifecycle_events"
  by (simp add: keys_def constructor_def lifecycle_events_def)

subsection \<open>What \<^verbatim>\<open>connect\<close> changes\<close>

lemma connect_trace:
  "trace (connect tok s) =
     trace s @ Io (url (connect tok s)) (options s) (created s) # install_handlers (created s)"
  by (simp add: connect_def Let_def perform_def split: option.splits)

lemma connect_url:
  "url (connect tok s) =
     (case tok of None \<Rightarrow> url s
      | Some t \<Rightarrow> if t \<noteq> [] then appendTokenToURL (url s) t else url s)"
  by (simp add: connect_def Let_def perform_def split: option.splits)

lemma connect_token:
  "token (connect tok s) =
     (case tok of None \<Rightarrow> token s | Some t \<Rightarrow> if t \<noteq> [] then Some t else token s)"
  by (simp add: connect_def Let_def perform_def split: option.splits)

section \<open>Sending after a disconnect\<close>

lemma listeners_clear_entry:
  "listeners e (clear_entry k s) = (if e = k then [] else listeners e s)"
  by (simp add: listeners_def clear_entry_def update_conv')

lemma listeners_fold_clear_entry:
  "listeners e (fold clear_entry ks s) = (if e \<in> set ks then [] else listeners e s)"
  by (induction ks arbitrary: s) (simp_all add: listeners_clear_entry)

lemma listeners_clearEventListeners: "listeners e (clearEventListeners s) = []"
proof (cases "e \<in> set (map fst (eventListeners s))")
  case True
  then show ?thesis
    by (simp add: clearEventListeners_def listeners_fold_clear_entry)
next
  case False
  then have "map_of (eventListeners s) e = None"
    by (simp add: map_of_eq_None_iff)
  then have "listeners e s = []"
    by (simp add: listeners_def)
  with False show ?thesis
    by (simp add: clearEventListeners_def listeners_fold_clear_entry)
qed

text \<open>
  Claim C1, as the code has it. \<^verbatim>\<open>disconnect\<close> asks the socket to close and empties the
  registry (the keys stay, every sequence is empty), and leaves the field \<^verbatim>\<open>socket\<close> as
  it is. On an object that holds a socket \<open>h\<close>, \<^verbatim>\<open>disconnect()\<close> followed by
  \<^verbatim>\<open>send(e, d)\<close> therefore makes exactly two calls to the library: \<^verbatim>\<open>h.disconnect()\<close> and
  then \<^verbatim>\<open>h.emit(e, d)\<close>. Only an object that never connected (no socket) is left
  untouched by the two calls.
\<close>

theorem disconnect_keeps_handle:
  "(socket s = Some h \<longrightarrow>
      socket (disconnect s) = Some h \<and>
      keys (disconnect s) = keys s \<and>
      (\<forall>ev. listeners ev (disconnect s) = []) \<and>
      trace (send e d (disconnect s)) = trace s @ [SocketDisconnect h, SocketEmit h e d]) \<and>
   (socket s = None \<longrightarrow> send e d (disconnect s) = s)"
  by (simp add: disconnect_def send_def clear_fields perform_fields clear_keys keys_perform
      listeners_clearEventListeners)

text \<open>
  An object connected with no token and with callback 7 registered for \<^verbatim>\<open>connect\<close>, and
  a new object.
\<close>

theorem disconnect_keeps_handle_witness:
  "socket (disconnect (run [Connect None, On ''connect'' 7] (constructor None None))) = Some 0 \<and>
   listeners ''connect'' (run [Connect None, On ''connect'' 7] (constructor None None)) = [7] \<and>
   listeners ''connect''
     (disconnect (run [Connect None, On ''connect'' 7] (constructor None None))) = [] \<and>
   keys (disconnect (run [Connect None, On ''connect'' 7] (constructor None None))) =
     [''connect'', ''disconnect'', ''error''] \<and>
   trace (send ''e'' (JNum 1)
       (disconnect (run [Connect None, On ''connect'' 7] (constructor None None)))) =
     trace (run [Connect None, On ''connect'' 7] (constructor None None)) @
       [SocketDisconnect 0, SocketEmit 0 ''e'' (JNum 1)] \<and>
   send ''e'' (JNum 1) (disconnect (constructor None None)) = constructor None None"
proof -
  let ?s = "run [Connect None, On ''connect'' 7] (constructor None None)"
  have connected: "socket ?s = Some 0"
    by (simp add: run_def step_def exec_def on_def get_property_def connect_fields
        constructor_def)
  have registered: "listeners ''connect'' ?s = [7]"
    by (simp add: run_def step_def exec_def on_def get_property_def connect_fields
        listeners_def constructor_def)
  have k: "keys ?s = [''connect'', ''disconnect'', ''error'']"
    by (simp add: keys_run keys_constructor lifecycle_events_def)
  have fresh: "socket (constructor None None) = None"
    by (simp add: constructor_def)
  from disconnect_keeps_handle [of ?s 0 "''e''" "JNum 1"] connected
  have "socket (disconnect ?s) = Some 0 \<and> keys (disconnect ?s) = keys ?s \<and>
      (\<forall>ev. listeners ev (disconnect ?s) = []) \<and>
      trace (send ''e'' (JNum 1) (disconnect ?s)) =
        trace ?s @ [SocketDisconnect 0, SocketEmit 0 ''e'' (JNum 1)]"
    by blast
  moreover from disconnect_keeps_handle [of "constructor None None" 0 "''e''" "JNum 1"] fresh
  have "send ''e'' (JNum 1) (disconnect (constructor None None)) = constructor None None"
    by blast
  ultimately show ?thesis
    using registered k by simp
qed

text \<open>
  The claim as the specification words it (no emit call reaches the library after a
  disconnect) fails on \<^verbatim>\<open>new Flow(); connect(); disconnect(); send('e', 1)\<close>.
\<close>

theorem emit_after_disconnect:
  "SocketEmit 0 ''e'' (JNum 1)
     \<in> set (trace (send ''e'' (JNum 1) (disconnect (connect None (constructor None None)))))"
  by (simp add: send_def disconnect_def clear_fields perform_fields connect_fields constructor_def)

section \<open>The token in the connection URL\<close>

text \<open>
  Claim C2, for the tokens the guard \<^verbatim>\<open>if (token)\<close> lets through. For every non-empty
  token \<open>t\<close>, \<^verbatim>\<open>connect(t)\<close> opens the socket with the stored URL followed by
  \<^verbatim>\<open>&token=t\<close> when the stored URL contains a \<^verbatim>\<open>?\<close> and by \<^verbatim>\<open>?token=t\<close> otherwise; it
  stores the token and the extended URL, and installs the four handlers on the new
  socket.
\<close>

theorem connect_appends_token:
  "t \<noteq> [] \<Longrightarrow>
     trace (connect (Some t) s) =
       trace s @
       Io (url s @ (if CHR ''?'' \<in> set (url s) then ''&'' else ''?'') @ ''token='' @ t)
          (options s) (created s) # install_handlers (created s) \<and>
     url (connect (Some t) s) =
       url s @ (if CHR ''?'' \<in> set (url s) then ''&'' else ''?'') @ ''token='' @ t \<and>
     token (connect (Some t) s) = Some t \<and>
     socket (connect (Some t) s) = Some (created s)"
  by (simp add: connect_trace connect_url connect_token connect_fields appendTokenToURL_def)

text \<open>The two examples of the specification.\<close>

theorem connect_appends_token_witness:
  "trace (connect (Some ''abc'') (constructor (Some ''http://host/'') None)) =
     Io ''http://host/?token=abc'' [] 0 # install_handlers 0 \<and>
   trace (connect (Some ''abc'') (constructor (Some ''http://host/?x=1'') None)) =
     Io ''http://host/?x=1&token=abc'' [] 0 # install_handlers 0"
  using connect_appends_token [of "''abc''" "constructor (Some ''http://host/'') None"]
    connect_appends_token [of "''abc''" "constructor (Some ''http://host/?x=1'') None"]
  by (simp add: constructor_def)

text \<open>
  The empty string is a token that is not \<^verbatim>\<open>null\<close>, and it is falsy: \<^verbatim>\<open>connect('')\<close>
  opens the socket with the stored URL as it is.
\<close>

theorem connect_empty_token:
  "trace (connect (Some '''') (constructor (Some ''http://host/'') None)) =
     Io ''http://host/'' [] 0 # install_handlers 0 \<and>
   url (connect (Some '''') (constructor (Some ''http://host/'') None)) \<noteq>
     appendTokenToURL ''http://host/'' ''''"
  by (simp add: connect_trace connect_url constructor_def appendTokenToURL_def)

section \<open>Lifecycle callbacks\<close>

lemma own_property:
  "e \<in> set (keys s) \<Longrightarrow> get_property (eventListeners s) e = Array (listeners e s)"
  by (auto simp: get_property_def listeners_def keys_def map_of_eq_None_iff split: option.splits)

lemma on_own:
  "e \<in> set (keys s) \<Longrightarrow>
     on e cb s =
       (None, s\<lparr>eventListeners := AList.update e (listeners e s @ [cb]) (eventListeners s)\<rparr>)"
  by (simp add: on_def own_property)

lemma listeners_on:
  "e \<in> set (keys s) \<Longrightarrow> listeners e (step (On e cb) s) = listeners e s @ [cb]"
  by (simp add: step_def exec_def on_own listeners_def update_conv')

lemma listeners_registrations:
  "e \<in> set (keys s) \<Longrightarrow> listeners e (run (map (On e) cbs) s) = listeners e s @ cbs"
proof (induction cbs arbitrary: s)
  case Nil
  then show ?case by (simp add: run_def)
next
  case (Cons cb cbs)
  from Cons.prems have "e \<in> set (keys (step (On e cb) s))"
    by (simp add: keys_step)
  then have "listeners e (run (map (On e) cbs) (step (On e cb) s)) =
      listeners e (step (On e cb) s) @ cbs"
    by (rule Cons.IH)
  with Cons.prems show ?case by (simp add: run_def listeners_on)
qed

lemma triggerEvent_own: "e \<in> set (keys s) \<Longrightarrow> triggerEvent e args s = forEach (listeners e s) args s"
  by (simp add: triggerEvent_def own_property)

lemma listeners_perform: "listeners e (perform as s) = listeners e s"
  by (simp add: listeners_def perform_def)

lemma perform_perform: "perform bs (perform as s) = perform (as @ bs) s"
  by (simp add: perform_def)

lemma forEach_all_return:
  "\<forall>cb\<in>set cbs. thrown s cb = None \<Longrightarrow>
     forEach cbs args s = (None, perform (map (\<lambda>cb. Call cb args) cbs) s)"
proof (induction cbs arbitrary: s)
  case Nil
  then show ?case by (simp add: perform_def)
next
  case (Cons cb cbs)
  from Cons.prems have "\<forall>c\<in>set cbs. thrown (perform [Call cb args] s) c = None"
    by (simp add: perform_fields)
  then have "forEach cbs args (perform [Call cb args] s) =
      (None, perform (map (\<lambda>cb. Call cb args) cbs) (perform [Call cb args] s))"
    by (rule Cons.IH)
  with Cons.prems show ?case by (simp add: perform_perform)
qed

lemma forEach_throw:
  "\<forall>c\<in>set pre. thrown s c = None \<Longrightarrow> thrown s cb = Some x \<Longrightarrow>
     forEach (pre @ cb # post) args s =
       (Some (Thrown x), perform (map (\<lambda>c. Call c args) (pre @ [cb])) s)"
proof (induction pre arbitrary: s)
  case Nil
  then show ?case by simp
next
  case (Cons c pre)
  from Cons.prems have "\<forall>c'\<in>set pre. thrown (perform [Call c args] s) c' = None"
    and "thrown (perform [Call c args] s) cb = Some x"
    by (simp_all add: perform_fields)
  then have "forEach (pre @ cb # post) args (perform [Call c args] s) =
      (Some (Thrown x),
       perform (map (\<lambda>c. Call c args) (pre @ [cb])) (perform [Call c args] s))"
    by (rule Cons.IH)
  with Cons.prems show ?case by (simp add: perform_perform)
qed

lemma thrown_step: "thrown (step op s) = thrown s"
  by (cases op)
     (auto simp: step_def exec_def disconnect_def send_def receive_def on_def off_def
        setOptions_def Let_def deliver_def handleConnect_def handleDisconnect_def
        handleError_def handleConnectError_def triggerEvent_fields run_closure_def
        connect_fields clear_fields perform_fields
        split: option.splits property.splits handler.splits closure.splits)

lemma thrown_run: "thrown (run ops s) = thrown s"
  unfolding run_def by (induction ops arbitrary: s) (simp_all add: thrown_step)

text \<open>
  Claim C3, for callbacks that return. Take a new object among callbacks that behave as
  \<open>b\<close> says, in any state it can reach, and register the callbacks \<open>cbs\<close> with
  \<^verbatim>\<open>on('connect', cb)\<close>, one call each, in this order. When the socket then reports its
  connect event and every registered callback returns, the handler returns normally, logs
  its message and calls the callbacks registered before, followed by \<open>cbs\<close>: one call for
  each registration (a callback registered twice is called twice), in the order of
  registration, each with no arguments; nothing else of the object changes. When a
  registered callback throws and those before it return, the handler calls the callbacks
  up to and including that one, calls none of the later ones, and raises what the
  callback threw. On a new object no callback is registered.
\<close>

theorem connect_event_calls_in_order:
  "((\<forall>cb \<in> set (listeners ''connect'' (run ops ((constructor u opts)\<lparr>thrown := b\<rparr>)) @ cbs).
        b cb = None) \<longrightarrow>
      exec (Deliver OnConnect v)
        (run (map (On ''connect'') cbs) (run ops ((constructor u opts)\<lparr>thrown := b\<rparr>))) =
        (None,
         perform (ConsoleLog ''Connected to server'' #
                  map (\<lambda>cb. Call cb [])
                    (listeners ''connect'' (run ops ((constructor u opts)\<lparr>thrown := b\<rparr>)) @ cbs))
           (run (map (On ''connect'') cbs) (run ops ((constructor u opts)\<lparr>thrown := b\<rparr>))))) \<and>
   (\<forall>pre cb post x.
      listeners ''connect'' (run ops ((constructor u opts)\<lparr>thrown := b\<rparr>)) @ cbs =
        pre @ cb # post \<and>
      (\<forall>c \<in> set pre. b c = None) \<and> b cb = Some x \<longrightarrow>
      exec (Deliver OnConnect v)
        (run (map (On ''connect'') cbs) (run ops ((constructor u opts)\<lparr>thrown := b\<rparr>))) =
        (Some (Thrown x),
         perform (ConsoleLog ''Connected to server'' # map (\<lambda>cb. Call cb []) (pre @ [cb]))
           (run (map (On ''connect'') cbs) (run ops ((constructor u opts)\<lparr>thrown := b\<rparr>))))) \<and>
   listeners ''connect'' ((constructor u opts)\<lparr>thrown := b\<rparr>) = []"
proof -
  let ?n = "(constructor u opts)\<lparr>thrown := b\<rparr>"
  let ?s = "run ops ?n"
  let ?s' = "run (map (On ''connect'') cbs) ?s"
  let ?l = "perform [ConsoleLog ''Connected to server''] ?s'"
  have "keys ?n = lifecycle_events"
    by (simp add: keys_def constructor_def lifecycle_events_def)
  then have k: "''connect'' \<in> set (keys ?s)"
    by (simp add: keys_run lifecycle_events_def)
  then have k': "''connect'' \<in> set (keys ?l)"
    by (simp add: keys_run keys_perform)
  have b: "thrown ?l = b"
    by (simp add: perform_fields thrown_run)
  have regs: "listeners ''connect'' ?l = listeners ''connect'' ?s @ cbs"
    using listeners_registrations [OF k] by (simp add: listeners_perform)
  have event: "exec (Deliver OnConnect v) ?s' = forEach (listeners ''connect'' ?s @ cbs) [] ?l"
    by (simp add: exec_def deliver_def handleConnect_def triggerEvent_own [OF k'] regs)
  have all_return: "exec (Deliver OnConnect v) ?s' =
      (None, perform (ConsoleLog ''Connected to server'' #
                map (\<lambda>cb. Call cb []) (listeners ''connect'' ?s @ cbs)) ?s')"
    if "\<forall>cb \<in> set (listeners ''connect'' ?s @ cbs). b cb = None"
  proof -
    from that have "\<forall>cb \<in> set (listeners ''connect'' ?s @ cbs). thrown ?l cb = None"
      by (simp only: b)
    then have "forEach (listeners ''connect'' ?s @ cbs) [] ?l =
        (None, perform (map (\<lambda>cb. Call cb []) (listeners ''connect'' ?s @ cbs)) ?l)"
      by (rule forEach_all_return)
    then show ?thesis
      unfolding event by (simp add: perform_perform)
  qed
  have one_throws: "exec (Deliver OnConnect v) ?s' =
      (Some (Thrown x),
       perform (ConsoleLog ''Connected to server'' # map (\<lambda>cb. Call cb []) (pre @ [cb])) ?s')"
    if "listeners ''connect'' ?s @ cbs = pre @ cb # post"
      and "\<forall>c \<in> set pre. b c = None" and "b cb = Some x" for pre cb post x
  proof -
    from that(2,3) have "\<forall>c \<in> set pre. thrown ?l c = None" and "thrown ?l cb = Some x"
      by (simp_all only: b)
    then have "forEach (pre @ cb # post) [] ?l =
        (Some (Thrown x), perform (map (\<lambda>c. Call c []) (pre @ [cb])) ?l)"
      by (rule forEach_throw)
    then show ?thesis
      unfolding event that(1) by (simp add: perform_perform)
  qed
  have fresh: "listeners ''connect'' ?n = []"
    by (simp add: listeners_def constructor_def)
  from all_return one_throws fresh show ?thesis by blast
qed

text \<open>
  Two objects connected with no token. Among callbacks that return, the registrations
  5, 3, 5 give the calls 5, 3, 5. Among callbacks of which 5 throws, the registrations
  3, 5, 4 give the calls 3, 5 and the raise.
\<close>

theorem connect_event_calls_in_order_example:
  "exec (Deliver OnConnect JUndefined)
     (run (map (On ''connect'') [5, 3, 5])
        (run [Connect None] ((constructor None None)\<lparr>thrown := (\<lambda>cb. None)\<rparr>))) =
     (None,
      perform [ConsoleLog ''Connected to server'', Call 5 [], Call 3 [], Call 5 []]
        (run (map (On ''connect'') [5, 3, 5])
           (run [Connect None] ((constructor None None)\<lparr>thrown := (\<lambda>cb. None)\<rparr>)))) \<and>
   exec (Deliver OnConnect JUndefined)
     (run (map (On ''connect'') [3, 5, 4])
        (run [Connect None]
           ((constructor None None)\<lparr>thrown := (\<lambda>cb. None)(5 := Some (JStr ''boom''))\<rparr>))) =
     (Some (Thrown (JStr ''boom'')),
      perform [ConsoleLog ''Connected to server'', Call 3 [], Call 5 []]
        (run (map (On ''connect'') [3, 5, 4])
           (run [Connect None]
              ((constructor None None)\<lparr>thrown := (\<lambda>cb. None)(5 := Some (JStr ''boom''))\<rparr>))))"
proof -
  let ?quiet = "(\<lambda>cb. None) :: callback \<Rightarrow> jsval option"
  let ?loud = "?quiet(5 := Some (JStr ''boom''))"
  have none: "listeners ''connect'' (run [Connect None] ((constructor None None)\<lparr>thrown := b\<rparr>)) = []"
    for b
    by (simp add: run_def step_def exec_def listeners_def connect_fields constructor_def)
  note quiet = connect_event_calls_in_order
    [where ops = "[Connect None]" and u = None and opts = None and b = ?quiet
       and cbs = "[5, 3, 5]" and v = JUndefined]
  note loud = connect_event_calls_in_order
    [where ops = "[Connect None]" and u = None and opts = None and b = ?loud
       and cbs = "[3, 5, 4]" and v = JUndefined]
  have split: "[] @ [3, 5, 4] = [3] @ 5 # [4::callback]"
    by simp
  have before: "\<forall>c \<in> set [3::callback]. ?loud c = None" and at: "?loud 5 = Some (JStr ''boom'')"
    by simp_all
  from quiet have first: "exec (Deliver OnConnect JUndefined)
     (run (map (On ''connect'') [5, 3, 5]) (run [Connect None] ((constructor None None)\<lparr>thrown := ?quiet\<rparr>))) =
     (None,
      perform (ConsoleLog ''Connected to server'' # map (\<lambda>cb. Call cb []) ([] @ [5, 3, 5]))
        (run (map (On ''connect'') [5, 3, 5]) (run [Connect None] ((constructor None None)\<lparr>thrown := ?quiet\<rparr>))))"
    unfolding none by simp
  from loud split before at have second: "exec (Deliver OnConnect JUndefined)
     (run (map (On ''connect'') [3, 5, 4]) (run [Connect None] ((constructor None None)\<lparr>thrown := ?loud\<rparr>))) =
     (Some (Thrown (JStr ''boom'')),
      perform (ConsoleLog ''Connected to server'' # map (\<lambda>cb. Call cb []) ([3] @ [5]))
        (run (map (On ''connect'') [3, 5, 4]) (run [Connect None] ((constructor None None)\<lparr>thrown := ?loud\<rparr>))))"
    unfolding none by blast
  from first second show ?thesis by simp
qed

text \<open>
  The claim as the specification words it (every registered callback is called) fails
  when a callback throws: on a new, connected object with the registrations 5, 3, of
  which 5 throws, the connect event calls 5, raises, and never calls 3.
\<close>

theorem throwing_callback_stops_dispatch:
  "fst (exec (Deliver OnConnect JUndefined)
          (run [Connect None, On ''connect'' 5, On ''connect'' 3]
             ((constructor None None)\<lparr>thrown := (\<lambda>cb. None)(5 := Some (JStr ''boom''))\<rparr>))) =
     Some (Thrown (JStr ''boom'')) \<and>
   listeners ''connect''
     (run [Connect None, On ''connect'' 5, On ''connect'' 3]
        ((constructor None None)\<lparr>thrown := (\<lambda>cb. None)(5 := Some (JStr ''boom''))\<rparr>)) = [5, 3] \<and>
   Call 5 [] \<in> set (trace (snd (exec (Deliver OnConnect JUndefined)
          (run [Connect None, On ''connect'' 5, On ''connect'' 3]
             ((constructor None None)\<lparr>thrown := (\<lambda>cb. None)(5 := Some (JStr ''boom''))\<rparr>))))) \<and>
   Call 3 [] \<notin> set (trace (snd (exec (Deliver OnConnect JUndefined)
          (run [Connect None, On ''connect'' 5, On ''connect'' 3]
             ((constructor None None)\<lparr>thrown := (\<lambda>cb. None)(5 := Some (JStr ''boom''))\<rparr>)))))"
  by (simp add: run_def step_def exec_def on_def get_property_def deliver_def handleConnect_def
      triggerEvent_def listeners_def connect_trace connect_fields perform_fields
      install_handlers_def constructor_def)

section \<open>Reconnecting after a connection error\<close>

text \<open>
  Claim C6. When the socket reports \<^verbatim>\<open>connect_error\<close>, the handler logs the error and
  makes one call of \<^verbatim>\<open>setTimeout\<close> with the delay 3000; it calls no callback and changes
  no field of the object. When the timer's function runs, in whatever state \<open>s'\<close> the
  object then is, it calls \<^verbatim>\<open>connect\<close> with the token stored in that state: one \<^verbatim>\<open>io\<close>
  call, on the stored URL extended by the stored token when there is one.
\<close>

theorem connect_error_schedules_reconnect:
  "exec (Deliver OnConnectError err) s =
     (None,
      s\<lparr>trace := trace s @
          [ConsoleError ''Connection error, attempting to reconnect:'' err,
           SetTimeout Reconnect 3000]\<rparr>) \<and>
   exec (Fire Reconnect) s' = (None, connect (token s') s') \<and>
   trace (connect (token s') s') =
     trace s' @
       Io (case token s' of
             None \<Rightarrow> url s'
           | Some t \<Rightarrow> if t \<noteq> [] then appendTokenToURL (url s') t else url s')
          (options s') (created s') #
       install_handlers (created s')"
  by (simp add: handleConnectError_def perform_def run_closure_def exec_def deliver_def
      connect_trace connect_url)

text \<open>
  An object connected with the token \<^verbatim>\<open>abc\<close>, with a callback registered for \<^verbatim>\<open>error\<close>:
  the connection error reaches no callback, and the timer's function connects with
  \<^verbatim>\<open>abc\<close> again.
\<close>

theorem connect_error_schedules_reconnect_example:
  "trace (step (Deliver OnConnectError (JStr ''timeout''))
       (run [Connect (Some ''abc''), On ''error'' 4] (constructor None None))) =
     [Io ''http://localhost:3000?token=abc'' [] 0] @ install_handlers 0 @
     [ConsoleError ''Connection error, attempting to reconnect:'' (JStr ''timeout''),
      SetTimeout Reconnect 3000] \<and>
   trace (step (Fire Reconnect)
       (step (Deliver OnConnectError (JStr ''timeout''))
          (run [Connect (Some ''abc''), On ''error'' 4] (constructor None None)))) =
     [Io ''http://localhost:3000?token=abc'' [] 0] @ install_handlers 0 @
     [ConsoleError ''Connection error, attempting to reconnect:'' (JStr ''timeout''),
      SetTimeout Reconnect 3000] @
     [Io ''http://localhost:3000?token=abc&token=abc'' [] 1] @ install_handlers 1"
proof -
  let ?s = "run [Connect (Some ''abc''), On ''error'' 4] (constructor None None)"
  let ?e = "step (Deliver OnConnectError (JStr ''timeout'')) ?s"
  have s: "trace ?s = Io ''http://localhost:3000?token=abc'' [] 0 # install_handlers 0"
    "token ?s = Some ''abc''" "url ?s = ''http://localhost:3000?token=abc''"
    "options ?s = []" "created ?s = 1"
    by (simp_all add: run_def step_def exec_def on_def get_property_def connect_trace
        connect_url connect_token connect_fields constructor_def appendTokenToURL_def)
  note at_s = connect_error_schedules_reconnect [of "JStr ''timeout''" ?s ?e]
  from at_s have "exec (Deliver OnConnectError (JStr ''timeout'')) ?s =
     (None, ?s\<lparr>trace := trace ?s @
          [ConsoleError ''Connection error, attempting to reconnect:'' (JStr ''timeout''),
           SetTimeout Reconnect 3000]\<rparr>)"
    by (rule conjunct1)
  then have e: "?e = ?s\<lparr>trace := trace ?s @
          [ConsoleError ''Connection error, attempting to reconnect:'' (JStr ''timeout''),
           SetTimeout Reconnect 3000]\<rparr>"
    unfolding step_def by simp
  from at_s have "exec (Fire Reconnect) ?e = (None, connect (token ?e) ?e)"
    by blast
  then have f: "step (Fire Reconnect) ?e = connect (token ?e) ?e"
    unfolding step_def [of "Fire Reconnect"] by simp
  from at_s have t: "trace (connect (token ?e) ?e) =
     trace ?e @
       Io (case token ?e of
             None \<Rightarrow> url ?e
           | Some t \<Rightarrow> if t \<noteq> [] then appendTokenToURL (url ?e) t else url ?e)
          (options ?e) (created ?e) #
       install_handlers (created ?e)"
    by blast
  have fields: "token ?e = Some ''abc''" "url ?e = ''http://localhost:3000?token=abc''"
    "options ?e = []" "created ?e = 1"
    "trace ?e = trace ?s @
          [ConsoleError ''Connection error, attempting to reconnect:'' (JStr ''timeout''),
           SetTimeout Reconnect 3000]"
    unfolding e by (simp_all add: s)
  have first: "trace ?e =
     [Io ''http://localhost:3000?token=abc'' [] 0] @ install_handlers 0 @
     [ConsoleError ''Connection error, attempting to reconnect:'' (JStr ''timeout''),
      SetTimeout Reconnect 3000]"
    unfolding fields s by simp
  have "trace (step (Fire Reconnect) ?e) = trace (connect (token ?e) ?e)"
    by (simp only: f)
  also note t
  also have "trace ?e @
       Io (case token ?e of
             None \<Rightarrow> url ?e
           | Some t \<Rightarrow> if t \<noteq> [] then appendTokenToURL (url ?e) t else url ?e)
          (options ?e) (created ?e) #
       install_handlers (created ?e) =
     [Io ''http://localhost:3000?token=abc'' [] 0] @ install_handlers 0 @
     [ConsoleError ''Connection error, attempting to reconnect:'' (JStr ''timeout''),
      SetTimeout Reconnect 3000] @
     [Io ''http://localhost:3000?token=abc&token=abc'' [] 1] @ install_handlers 1"
    unfolding fields s by (simp add: appendTokenToURL_def)
  finally have second: "trace (step (Fire Reconnect) ?e) =
     [Io ''http://localhost:3000?token=abc'' [] 0] @ install_handlers 0 @
     [ConsoleError ''Connection error, attempting to reconnect:'' (JStr ''timeout''),
      SetTimeout Reconnect 3000] @
     [Io ''http://localhost:3000?token=abc&token=abc'' [] 1] @ install_handlers 1" .
  from first second show ?thesis by (rule conjI)
qed

section \<open>Changing the options\<close>

lemma update_fresh: "k \<notin> fst ` set al \<Longrightarrow> AList.update k v al = al @ [(k, v)]"
  by (induction al) auto

lemma fold_update_fresh:
  "distinct (map fst xs) \<Longrightarrow> fst ` set xs \<inter> fst ` set acc = {} \<Longrightarrow>
     fold (\<lambda>(k, v). AList.update k v) xs acc = acc @ xs"
proof (induction xs arbitrary: acc)
  case Nil
  then show ?case by simp
next
  case (Cons x xs)
  obtain k v where x: "x = (k, v)" by (cases x)
  from Cons.prems x have fresh: "k \<notin> fst ` set acc" by auto
  from Cons.prems x have "distinct (map fst xs)" and "fst ` set xs \<inter> fst ` set (acc @ [(k, v)]) = {}"
    by auto
  then have "fold (\<lambda>(k, v). AList.update k v) xs (acc @ [(k, v)]) = (acc @ [(k, v)]) @ xs"
    by (rule Cons.IH)
  with fresh x show ?case by (simp add: update_fresh)
qed

lemma map_of_fold_update:
  "map_of (fold (\<lambda>(k, v). AList.update k v) xs acc) = map_of acc ++ map_of (rev xs)"
  by (induction xs arbitrary: acc) (auto simp: update_conv')

lemma map_of_rev_distinct: "distinct (map fst xs) \<Longrightarrow> map_of (rev xs) = map_of xs"
proof (induction xs)
  case Nil
  then show ?case by simp
next
  case (Cons x xs)
  obtain k v where x: "x = (k, v)" by (cases x)
  with Cons.prems have "map_of xs k = None"
    by (simp add: map_of_eq_None_iff)
  with Cons x show ?case
    by (auto simp: fun_eq_iff map_add_def split: option.splits)
qed

lemma distinct_fold_update:
  "distinct (map fst acc) \<Longrightarrow> distinct (map fst (fold (\<lambda>(k, v). AList.update k v) xs acc))"
  by (induction xs arbitrary: acc) (auto simp: distinct_update)

lemma spread_object: "distinct (map fst old) \<Longrightarrow> spread old new = fold (\<lambda>(k, v). AList.update k v) new old"
  by (simp add: spread_def fold_update_fresh)

lemma spread_lookup:
  "distinct (map fst old) \<Longrightarrow> distinct (map fst new) \<Longrightarrow>
     map_of (spread old new) = map_of old ++ map_of new"
  by (simp add: spread_object map_of_fold_update map_of_rev_distinct)

lemma spread_distinct: "distinct (map fst (spread old new))"
  by (simp add: spread_def distinct_fold_update)

lemma setOptions_options: "options (setOptions opts s) = spread (options s) opts"
  by (simp add: setOptions_def Let_def connect_fields perform_fields split: option.splits)

lemma setOptions_connected:
  "socket s = Some h \<Longrightarrow>
     setOptions opts s =
       connect (token s) (perform [SocketDisconnect h] (s\<lparr>options := spread (options s) opts\<rparr>))"
  by (simp add: setOptions_def Let_def)

lemma setOptions_no_socket:
  "socket s = None \<Longrightarrow> setOptions opts s = s\<lparr>options := spread (options s) opts\<rparr>"
  by (simp add: setOptions_def Let_def)

lemma connect_url_perform: "url (connect tok (perform as s)) = url (connect tok s)"
  by (simp add: connect_url perform_fields split: option.splits)

lemma setOptions_eventListeners: "eventListeners (setOptions opts s) = eventListeners s"
  by (simp add: setOptions_def Let_def connect_fields perform_fields split: option.splits)

text \<open>
  Claim C5. \<^verbatim>\<open>setOptions\<close> stores a new object that has the properties of the stored
  options and of its argument, the argument's value winning on a key both have (objects
  have each key once). From a new object with the default empty options,
  \<^verbatim>\<open>setOptions({a:1})\<close> followed by \<^verbatim>\<open>setOptions({b:2})\<close> leaves \<^verbatim>\<open>{a:1, b:2}\<close>. When the
  object holds a socket \<open>h\<close>, one call of \<^verbatim>\<open>setOptions\<close> is \<^verbatim>\<open>h.disconnect()\<close> followed by
  one \<^verbatim>\<open>connect\<close> with the stored token: the library sees exactly one disconnect of \<open>h\<close>,
  then one \<^verbatim>\<open>io\<close> call with the merged options, then the handlers installed on the new
  socket. Without a socket the library sees nothing.
\<close>

theorem setOptions_merges_and_reconnects:
  "(distinct (map fst (options s)) \<and> distinct (map fst opts) \<longrightarrow>
      map_of (options (setOptions opts s)) = map_of (options s) ++ map_of opts) \<and>
   distinct (map fst (options (setOptions opts s))) \<and>
   options (setOptions [(''b'', JNum 2)] (setOptions [(''a'', JNum 1)] (constructor u None))) =
     [(''a'', JNum 1), (''b'', JNum 2)] \<and>
   (socket s = Some h \<longrightarrow>
      setOptions opts s =
        connect (token s)
          (perform [SocketDisconnect h] (s\<lparr>options := spread (options s) opts\<rparr>)) \<and>
      trace (setOptions opts s) =
        trace s @ SocketDisconnect h #
          Io (url (connect (token s) s)) (spread (options s) opts) (created s) #
          install_handlers (created s) \<and>
      socket (setOptions opts s) = Some (created s)) \<and>
   (socket s = None \<longrightarrow> trace (setOptions opts s) = trace s \<and> socket (setOptions opts s) = None)"
proof -
  have 1: "distinct (map fst (options s)) \<and> distinct (map fst opts) \<longrightarrow>
      map_of (options (setOptions opts s)) = map_of (options s) ++ map_of opts"
    by (simp add: setOptions_options spread_lookup)
  have 2: "distinct (map fst (options (setOptions opts s)))"
    by (simp add: setOptions_options spread_distinct)
  have 3: "options (setOptions [(''b'', JNum 2)] (setOptions [(''a'', JNum 1)] (constructor u None))) =
       [(''a'', JNum 1), (''b'', JNum 2)]"
    by (simp add: setOptions_options spread_def constructor_def)
  have 4: "socket s = Some h \<longrightarrow>
        setOptions opts s =
          connect (token s)
            (perform [SocketDisconnect h] (s\<lparr>options := spread (options s) opts\<rparr>)) \<and>
        trace (setOptions opts s) =
          trace s @ SocketDisconnect h #
            Io (url (connect (token s) s)) (spread (options s) opts) (created s) #
            install_handlers (created s) \<and>
        socket (setOptions opts s) = Some (created s)"
    by (simp add: setOptions_connected connect_trace connect_fields perform_fields
        connect_url_perform)
       (simp add: connect_url split: option.splits)
  have 5: "socket s = None \<longrightarrow> trace (setOptions opts s) = trace s \<and> socket (setOptions opts s) = None"
    by (simp add: setOptions_no_socket)
  from 1 2 3 4 5 show ?thesis by blast
qed

theorem setOptions_merges_and_reconnects_witness:
  "map_of (options (setOptions [(''a'', JNum 1)]
       (connect (Some ''abc'') (constructor (Some ''http://host/'') None)))) =
     map_of [] ++ map_of [(''a'', JNum 1)] \<and>
   trace (setOptions [(''a'', JNum 1)]
       (connect (Some ''abc'') (constructor (Some ''http://host/'') None))) =
     trace (connect (Some ''abc'') (constructor (Some ''http://host/'') None)) @
       SocketDisconnect 0 #
       Io ''http://host/?token=abc&token=abc'' [(''a'', JNum 1)] 1 # install_handlers 1 \<and>
   trace (setOptions [(''a'', JNum 1)] (constructor None None)) = []"
proof -
  let ?s = "connect (Some ''abc'') (constructor (Some ''http://host/'') None)"
  let ?n = "constructor None None"
  let ?o = "[(''a'', JNum 1)]"
  have s: "options ?s = []" "socket ?s = Some 0" "created ?s = 1"
    by (simp_all add: connect_fields constructor_def)
  have u: "url (connect (token ?s) ?s) = ''http://host/?token=abc&token=abc''"
    by (simp add: connect_url connect_token constructor_def appendTokenToURL_def)
  have n: "options ?n = []" "socket ?n = None" "trace ?n = []"
    by (simp_all add: constructor_def)
  have ds: "distinct (map fst (options ?s))" and dn: "distinct (map fst (options ?n))"
    and d: "distinct (map fst ?o)"
    by (simp_all add: s n)
  note connected = setOptions_merges_and_reconnects [of ?s ?o None 0]
  note fresh = setOptions_merges_and_reconnects [of ?n ?o None 0]
  from connected ds d
  have "map_of (options (setOptions ?o ?s)) = map_of (options ?s) ++ map_of ?o"
    by blast
  moreover from connected s(2) have "trace (setOptions ?o ?s) =
      trace ?s @ SocketDisconnect 0 #
        Io (url (connect (token ?s) ?s)) (spread (options ?s) ?o) (created ?s) #
        install_handlers (created ?s)"
    by blast
  moreover from fresh n(2) have "trace (setOptions ?o ?n) = trace ?n"
    by blast
  ultimately show ?thesis
    unfolding u s n by (simp add: spread_def)
qed

section \<open>The registry across \<^verbatim>\<open>setOptions\<close> and \<^verbatim>\<open>disconnect\<close>\<close>

text \<open>
  Claim C10. On an object that holds a socket \<open>h\<close> and whose registry has the three
  lifecycle keys, \<^verbatim>\<open>setOptions\<close> disconnects \<open>h\<close> and connects again, and the registry
  after it is the registry before it: every registered callback stays registered. An
  explicit \<^verbatim>\<open>disconnect()\<close> on the same object leaves the three sequences empty.
\<close>

theorem setOptions_keeps_callbacks:
  "socket s = Some h \<Longrightarrow> keys s = lifecycle_events \<Longrightarrow>
     eventListeners (setOptions opts s) = eventListeners s \<and>
     SocketDisconnect h \<in> set (trace (setOptions opts s)) \<and>
     socket (setOptions opts s) = Some (created s) \<and>
     eventListeners (disconnect s) = [(''connect'', []), (''disconnect'', []), (''error'', [])]"
  by (simp add: setOptions_eventListeners setOptions_connected connect_trace connect_fields
      perform_fields disconnect_def clear_registry keys_perform)


theorem setOptions_keeps_callbacks_witness:
  "eventListeners (setOptions [(''a'', JNum 1)]
       (run [Connect None, On ''connect'' 7] (constructor None None))) =
     [(''connect'', [7]), (''disconnect'', []), (''error'', [])] \<and>
   eventListeners (disconnect (run [Connect None, On ''connect'' 7] (constructor None None))) =
     [(''connect'', []), (''disconnect'', []), (''error'', [])]"
proof -
  let ?s = "run [Connect None, On ''connect'' 7] (constructor None None)"
  have e: "eventListeners ?s = [(''connect'', [7]), (''disconnect'', []), (''error'', [])]"
    by (simp add: run_def step_def exec_def on_def get_property_def connect_fields constructor_def)
  have k: "keys ?s = lifecycle_events"
    by (simp add: keys_run keys_constructor)
  have h: "socket ?s = Some 0"
    by (simp add: run_def step_def exec_def on_def get_property_def connect_fields constructor_def)
  from setOptions_keeps_callbacks [OF h k, of "[(''a'', JNum 1)]"] e show ?thesis
    by simp
qed

section \<open>The stored URL only grows\<close>

lemma url_step: "prefix (url s) (url (step op s))"
proof (cases op)
  case (Connect tok)
  then show ?thesis
    by (simp add: step_def exec_def connect_url appendTokenToURL_def split: option.splits)
next
  case Disconnect
  then show ?thesis
    by (simp add: step_def exec_def disconnect_def clear_fields perform_fields split: option.splits)
next
  case (Send e d)
  then show ?thesis
    by (simp add: step_def exec_def send_def perform_fields split: option.splits)
next
  case (Receive e cb)
  then show ?thesis
    by (simp add: step_def exec_def receive_def perform_fields split: option.splits)
next
  case (On e cb)
  then show ?thesis
    by (simp add: step_def exec_def on_def split: property.splits)
next
  case (Off e cb)
  then show ?thesis
    by (simp add: step_def exec_def off_def split: property.splits)
next
  case (SetOptions opts)
  then show ?thesis
    by (simp add: step_def exec_def setOptions_def Let_def connect_url perform_fields
        appendTokenToURL_def split: option.splits)
next
  case (Deliver h v)
  then show ?thesis
    by (simp add: step_def exec_def deliver_def handleConnect_def handleDisconnect_def
        handleError_def handleConnectError_def triggerEvent_fields perform_fields
        split: handler.splits)
next
  case (Fire c)
  then show ?thesis
    by (simp add: step_def exec_def run_closure_def connect_url appendTokenToURL_def
        split: option.splits closure.splits)
qed

lemma url_run: "prefix (url s) (url (run ops s))"
proof (induction ops arbitrary: s)
  case Nil
  then show ?case by (simp add: run_def)
next
  case (Cons op ops)
  have "prefix (url s) (url (step op s))" by (rule url_step)
  also have "prefix (url (step op s)) (url (run ops (step op s)))" by (rule Cons.IH)
  finally show ?case by (simp add: run_def)
qed

lemmas step_unfold = step_def exec_def disconnect_def send_def receive_def on_def off_def
  setOptions_def Let_def deliver_def handleConnect_def handleDisconnect_def handleError_def
  handleConnectError_def triggerEvent_fields run_closure_def

lemma token_step:
  "token s = Some t \<Longrightarrow> t \<noteq> [] \<Longrightarrow> \<exists>t'. token (step op s) = Some t' \<and> t' \<noteq> []"
  by (cases op)
     (auto simp: step_unfold connect_token clear_fields perform_fields
        split: option.splits property.splits handler.splits closure.splits)

lemma token_run:
  "token s = Some t \<Longrightarrow> t \<noteq> [] \<Longrightarrow> \<exists>t'. token (run ops s) = Some t' \<and> t' \<noteq> []"
proof (induction ops arbitrary: s t)
  case Nil
  then show ?case by (simp add: run_def)
next
  case (Cons op ops)
  from token_step [OF Cons.prems] obtain t' where "token (step op s) = Some t'" "t' \<noteq> []"
    by blast
  then have "\<exists>t''. token (run ops (step op s)) = Some t'' \<and> t'' \<noteq> []"
    by (rule Cons.IH)
  then show ?case by (simp add: run_def)
qed

lemma socket_step: "socket s \<noteq> None \<Longrightarrow> socket (step op s) \<noteq> None"
  by (cases op)
     (auto simp: step_unfold connect_fields clear_fields perform_fields
        split: option.splits property.splits handler.splits closure.splits)

lemma socket_run: "socket s \<noteq> None \<Longrightarrow> socket (run ops s) \<noteq> None"
proof (induction ops arbitrary: s)
  case Nil
  then show ?case by (simp add: run_def)
next
  case (Cons op ops)
  from Cons.prems have "socket (step op s) \<noteq> None" by (rule socket_step)
  then have "socket (run ops (step op s)) \<noteq> None" by (rule Cons.IH)
  then show ?case by (simp add: run_def)
qed

lemma query_run: "CHR ''?'' \<in> set (url s) \<Longrightarrow> CHR ''?'' \<in> set (url (run ops s))"
  using set_mono_prefix [OF url_run [of s ops]] by blast

lemma query_appendTokenToURL: "CHR ''?'' \<in> set (appendTokenToURL u t)"
  by (simp add: appendTokenToURL_def)

lemma reconnect_appends:
  assumes "CHR ''?'' \<in> set (url s)" and "token s = Some t" and "t \<noteq> []"
  shows "url (connect (token s) s) = url s @ ''&token='' @ t"
  using assms by (simp add: connect_url appendTokenToURL_def)

text \<open>
  Claim C9, for the tokens the guard \<^verbatim>\<open>if (token)\<close> lets through. \<^verbatim>\<open>connect\<close> with a
  non-empty token \<open>t\<close> stores the token and overwrites the field \<^verbatim>\<open>url\<close> with the URL
  extended by the token. No operation restores the field: after any further operations
  the extended URL is still a prefix of the stored one. So every later \<^verbatim>\<open>connect\<close> with a
  non-empty token appends one more \<^verbatim>\<open>&token=\<close> parameter to a URL that has one already,
  and so do the reconnects made with the stored token: the one the timer of
  \<^verbatim>\<open>handleConnectError\<close> makes, and the one \<^verbatim>\<open>setOptions\<close> makes (the object holds a socket
  from the first \<^verbatim>\<open>connect\<close> on).
\<close>

theorem token_appended_on_every_connect:
  "t \<noteq> [] \<Longrightarrow>
     url (connect (Some t) s) = appendTokenToURL (url s) t \<and>
     token (connect (Some t) s) = Some t \<and>
     (\<forall>ops. prefix (appendTokenToURL (url s) t) (url (run ops (connect (Some t) s)))) \<and>
     (\<forall>ops t'. t' \<noteq> [] \<longrightarrow>
        url (connect (Some t') (run ops (connect (Some t) s))) =
          url (run ops (connect (Some t) s)) @ ''&token='' @ t') \<and>
     (\<forall>ops. \<exists>t'. token (run ops (connect (Some t) s)) = Some t' \<and> t' \<noteq> [] \<and>
        url (step (Fire Reconnect) (run ops (connect (Some t) s))) =
          url (run ops (connect (Some t) s)) @ ''&token='' @ t' \<and>
        (\<forall>opts. url (setOptions opts (run ops (connect (Some t) s))) =
          url (run ops (connect (Some t) s)) @ ''&token='' @ t'))"
proof -
  assume t: "t \<noteq> []"
  let ?c = "connect (Some t) s"
  have u: "url ?c = appendTokenToURL (url s) t"
    using t by (simp add: connect_url)
  have tok: "token ?c = Some t"
    using t by (simp add: connect_token)
  have sock: "socket ?c \<noteq> None"
    by (simp add: connect_fields)
  have q: "CHR ''?'' \<in> set (url (run ops ?c))" for ops
    by (rule query_run) (simp add: u query_appendTokenToURL)
  have grows: "prefix (appendTokenToURL (url s) t) (url (run ops ?c))" for ops
    using url_run [of ?c ops] by (simp add: u)
  have later: "url (connect (Some t') (run ops ?c)) = url (run ops ?c) @ ''&token='' @ t'"
    if "t' \<noteq> []" for ops t'
    using that q [of ops] by (simp add: connect_url appendTokenToURL_def)
  have auto_reconnect: "\<exists>t'. token (run ops ?c) = Some t' \<and> t' \<noteq> [] \<and>
        url (step (Fire Reconnect) (run ops ?c)) = url (run ops ?c) @ ''&token='' @ t' \<and>
        (\<forall>opts. url (setOptions opts (run ops ?c)) = url (run ops ?c) @ ''&token='' @ t')"
    for ops
  proof -
    from token_run [OF tok t] obtain t' where t': "token (run ops ?c) = Some t'" "t' \<noteq> []"
      by blast
    from socket_run [OF sock] obtain h where h: "socket (run ops ?c) = Some h"
      by blast
    have "url (step (Fire Reconnect) (run ops ?c)) = url (run ops ?c) @ ''&token='' @ t'"
      using reconnect_appends [OF q t'] by (simp add: step_def exec_def run_closure_def)
    moreover have "url (setOptions opts (run ops ?c)) = url (run ops ?c) @ ''&token='' @ t'"
      for opts
      using q [of ops] t' h
      by (simp add: setOptions_def Let_def connect_url perform_fields appendTokenToURL_def)
    ultimately show ?thesis using t' by blast
  qed
  from u tok grows later auto_reconnect show ?thesis by blast
qed

theorem token_appended_on_every_connect_witness:
  "url (connect (Some ''abc'') (constructor (Some ''http://host/'') None)) =
     ''http://host/?token=abc'' \<and>
   url (connect (Some ''xyz'')
          (run [Disconnect] (connect (Some ''abc'') (constructor (Some ''http://host/'') None)))) =
     ''http://host/?token=abc&token=xyz''"
proof -
  let ?s = "constructor (Some ''http://host/'') None"
  have ne: "''abc'' \<noteq> []" "''xyz'' \<noteq> []" by simp_all
  note T = token_appended_on_every_connect [OF ne(1), of ?s]
  from T have 1: "url (connect (Some ''abc'') ?s) = appendTokenToURL (url ?s) ''abc''"
    by (rule conjunct1)
  from T ne(2) have 2:
    "url (connect (Some ''xyz'') (run [Disconnect] (connect (Some ''abc'') ?s))) =
     url (run [Disconnect] (connect (Some ''abc'') ?s)) @ ''&token='' @ ''xyz''"
    by blast
  have 3: "url (run [Disconnect] (connect (Some ''abc'') ?s)) = url (connect (Some ''abc'') ?s)"
    by (simp add: run_def step_def exec_def disconnect_def clear_fields perform_fields
        split: option.splits)
  have 4: "appendTokenToURL (url ?s) ''abc'' = ''http://host/?token=abc''"
    by (simp add: constructor_def appendTokenToURL_def)
  from 1 2 3 4 show ?thesis by simp
qed

text \<open>
  The empty string is not \<^verbatim>\<open>null\<close>, and \<^verbatim>\<open>connect('')\<close> neither stores it nor touches the
  field \<^verbatim>\<open>url\<close>.
\<close>

theorem empty_token_not_stored:
  "url (connect (Some '''') (constructor (Some ''http://host/'') None)) = ''http://host/'' \<and>
   token (connect (Some '''') (constructor (Some ''http://host/'') None)) = None \<and>
   appendTokenToURL ''http://host/'' '''' = ''http://host/?token=''"
  by (simp add: connect_url connect_token constructor_def appendTokenToURL_def)

section \<open>Event names that are not lifecycle events\<close>

text \<open>
  The registry starts with the three lifecycle keys and no operation adds or removes a
  key, whether the operation returns or raises.
\<close>

lemma registry_keys_invariant: "keys (run ops (constructor u opts)) = lifecycle_events"
  by (simp add: keys_run keys_constructor)

lemma other_property:
  "e \<notin> set (keys s) \<Longrightarrow>
     get_property (eventListeners s) e =
       (if e \<in> set object_prototype_members then Inherited else Undefined)"
  by (simp add: get_property_def keys_def map_of_eq_None_iff [symmetric])

text \<open>
  A name that is neither a key of the registry nor a member of \<^verbatim>\<open>Object.prototype\<close> is
  ignored by \<^verbatim>\<open>on\<close> and \<^verbatim>\<open>off\<close>. A member of \<^verbatim>\<open>Object.prototype\<close> passes the guard
  \<^verbatim>\<open>if (this.eventListeners[event])\<close> and the method call on it raises; the object is
  left as it was.
\<close>

lemma on_other_name:
  "e \<notin> set (keys s) \<Longrightarrow>
     on e cb s =
       (if e \<in> set object_prototype_members
        then Some (TypeError ''this.eventListeners[event].push is not a function'')
        else None, s)"
  by (simp add: on_def other_property)

lemma off_other_name:
  "e \<notin> set (keys s) \<Longrightarrow>
     off e cb s =
       (if e \<in> set object_prototype_members
        then Some (TypeError ''this.eventListeners[event].filter is not a function'')
        else None, s)"
  by (simp add: off_def other_property)

text \<open>
  On a key of the registry, \<^verbatim>\<open>off\<close> keeps the callbacks other than \<open>cb\<close>, in their
  order; an event of that name then calls exactly those; and \<^verbatim>\<open>off\<close> of a callback
  that is not registered changes nothing.
\<close>

lemma off_own:
  "e \<in> set (keys s) \<Longrightarrow>
     off e cb s =
       (None, s\<lparr>eventListeners :=
                  AList.update e (filter (\<lambda>c. c \<noteq> cb) (listeners e s)) (eventListeners s)\<rparr>)"
  by (simp add: off_def own_property)

lemma listeners_off:
  "e \<in> set (keys s) \<Longrightarrow> listeners e (snd (off e cb s)) = filter (\<lambda>c. c \<noteq> cb) (listeners e s)"
  by (simp add: off_own listeners_def update_conv')

lemma forEach_calls:
  "set (trace (snd (forEach cbs args s))) \<subseteq> set (trace s) \<union> (\<lambda>c. Call c args) ` set cbs"
proof (induction cbs arbitrary: s)
  case Nil
  then show ?case by simp
next
  case (Cons c cbs)
  from Cons.IH [of "perform [Call c args] s"] show ?case
    by (auto simp: perform_fields split: option.splits)
qed

lemma off_then_event:
  assumes "e \<in> set (keys s)"
  shows "triggerEvent e args (snd (off e cb s)) =
     forEach (filter (\<lambda>c. c \<noteq> cb) (listeners e s)) args (snd (off e cb s))"
proof -
  from assms have "e \<in> set (keys (snd (off e cb s)))"
    by (simp add: keys_off)
  then show ?thesis
    using assms by (simp add: triggerEvent_own listeners_off)
qed

lemma off_then_event_skips:
  assumes "e \<in> set (keys s)" and "Call cb args \<notin> set (trace s)"
  shows "Call cb args \<notin> set (trace (snd (triggerEvent e args (snd (off e cb s)))))"
proof -
  from assms(1) have "trace (snd (off e cb s)) = trace s"
    by (simp add: off_own)
  with forEach_calls [of "filter (\<lambda>c. c \<noteq> cb) (listeners e s)" args "snd (off e cb s)"] assms(2)
  show ?thesis
    unfolding off_then_event [OF assms(1)] by auto
qed

lemma off_not_registered:
  assumes "e \<in> set (keys s)" and "cb \<notin> set (listeners e s)"
  shows "off e cb s = (None, s)"
proof -
  from assms(2) have same: "filter (\<lambda>c. c \<noteq> cb) (listeners e s) = listeners e s"
    by (simp add: filter_id_conv) blast
  from assms(1) have "map_of (eventListeners s) e = Some (listeners e s)"
    by (cases "map_of (eventListeners s) e")
       (auto simp: listeners_def keys_def map_of_eq_None_iff)
  then have "AList.update e (listeners e s) (eventListeners s) = eventListeners s"
    by (rule update_triv)
  with assms(1) same show ?thesis by (simp add: off_own)
qed

text \<open>
  Claim C8 says that \<^verbatim>\<open>on\<close> and \<^verbatim>\<open>off\<close> with an unrecognized event name return normally.
  With the event name \<^verbatim>\<open>toString\<close> on a new object both raise a TypeError.
\<close>

theorem on_off_raise_on_toString:
  "on ''toString'' 0 (constructor None None) =
     (Some (TypeError ''this.eventListeners[event].push is not a function''),
      constructor None None) \<and>
   off ''toString'' 0 (constructor None None) =
     (Some (TypeError ''this.eventListeners[event].filter is not a function''),
      constructor None None)"
  by (simp add: on_def off_def get_property_def object_prototype_members_def constructor_def)

text \<open>
  Claim C7 says that \<^verbatim>\<open>on\<close> with an event name other than the three is a no-op. With the
  event name \<^verbatim>\<open>valueOf\<close> on a connected object the call raises a TypeError; the registry
  keeps its three keys.
\<close>

theorem on_valueOf_raises:
  "on ''valueOf'' 0 (connect None (constructor None None)) =
     (Some (TypeError ''this.eventListeners[event].push is not a function''),
      connect None (constructor None None)) \<and>
   keys (snd (on ''valueOf'' 0 (connect None (constructor None None)))) =
     [''connect'', ''disconnect'', ''error'']"
  by (simp add: on_def get_property_def object_prototype_members_def connect_fields keys_def
      constructor_def)

text \<open>
  Claim C4 says that \<^verbatim>\<open>off\<close> with an unrecognized event name is a no-op. With the event
  name \<^verbatim>\<open>constructor\<close>, after a callback was registered for \<^verbatim>\<open>connect\<close>, the call raises
  a TypeError; the registry is left as it was.
\<close>

theorem off_constructor_raises:
  "off ''constructor'' 7 (snd (on ''connect'' 7 (constructor None None))) =
     (Some (TypeError ''this.eventListeners[event].filter is not a function''),
      snd (on ''connect'' 7 (constructor None None))) \<and>
   eventListeners (snd (on ''connect'' 7 (constructor None None))) =
     [(''connect'', [7]), (''disconnect'', []), (''error'', [])]"
  by (simp add: on_def off_def get_property_def object_prototype_members_def constructor_def)

end
